theory Spec2Isabelle
  imports Main
begin

section \<open>Export schedules: the route \<^verbatim>\<open>api/admin/users/exports/schedule\<close>\<close>

text \<open>
  The four handlers of \<^verbatim>\<open>route.ts\<close> (GET, POST, PATCH, DELETE) are embedded as functions
  from the collaborators' answers, the tenant context, the request and the database to a
  response and the database afterwards. The two tables the handlers touch are lists of
  rows. Strings are lists of 8-bit characters: a code unit above 255 has no counterpart here.
\<close>

subsection \<open>Rows and the database\<close>

record ExportSchedule =
  id' :: string
  name :: string
  description :: "string option"
  frequency :: string
  format :: string
  recipients :: "string list"
  dayOfWeek :: "int option"
  dayOfMonth :: "int option"
  time :: string
  emailSubject :: "string option"
  emailBody :: "string option"
  filterPresetId :: "string option"
  isActive :: bool
  tenantId :: string
  userId :: string
  createdAt :: int
  updatedAt :: int

text \<open>Of an execution row the handlers read only the schedule it belongs to.\<close>

record ExportScheduleExecution =
  execution_id :: string
  scheduleId :: string

record database =
  exportSchedule :: "ExportSchedule list"
  exportScheduleExecution :: "ExportScheduleExecution list"

definition empty_database :: database where
  "empty_database = \<lparr>exportSchedule = [], exportScheduleExecution = []\<rparr>"

subsection \<open>The Prisma calls the handlers make\<close>

definition exportSchedule_findMany :: "(ExportSchedule \<Rightarrow> bool) \<Rightarrow> database \<Rightarrow> ExportSchedule list" where
  "exportSchedule_findMany wh db = filter wh (exportSchedule db)"

definition exportSchedule_count :: "(ExportSchedule \<Rightarrow> bool) \<Rightarrow> database \<Rightarrow> nat" where
  "exportSchedule_count wh db = length (filter wh (exportSchedule db))"

definition exportSchedule_create :: "ExportSchedule \<Rightarrow> database \<Rightarrow> database" where
  "exportSchedule_create row db = db\<lparr>exportSchedule := exportSchedule db @ [row]\<rparr>"

text \<open>
  \<^verbatim>\<open>updateMany\<close> writes one data object to every row its \<^verbatim>\<open>where\<close> selects. PATCH passes
  \<^verbatim>\<open>{ isActive: { not: true } }\<close>. What the Prisma engine makes of that object is decided
  outside this source, so it is an argument of the model: the engine either refuses the query
  (the call throws) or assigns one Boolean to the column in every selected row.
\<close>

datatype isActive_data = Refused | Assigned bool

definition exportSchedule_updateMany ::
  "(ExportSchedule \<Rightarrow> bool) \<Rightarrow> isActive_data \<Rightarrow> database \<Rightarrow> (nat \<times> database) option" where
  "exportSchedule_updateMany wh d db =
     (case d of
        Refused \<Rightarrow> None
      | Assigned b \<Rightarrow>
          Some (length (filter wh (exportSchedule db)),
                db\<lparr>exportSchedule :=
                     map (\<lambda>s. if wh s then s\<lparr>isActive := b\<rparr> else s) (exportSchedule db)\<rparr>))"

definition exportSchedule_deleteMany :: "(ExportSchedule \<Rightarrow> bool) \<Rightarrow> database \<Rightarrow> nat \<times> database" where
  "exportSchedule_deleteMany wh db =
     (length (filter wh (exportSchedule db)),
      db\<lparr>exportSchedule := filter (\<lambda>s. \<not> wh s) (exportSchedule db)\<rparr>)"

definition exportScheduleExecution_deleteMany ::
  "(ExportScheduleExecution \<Rightarrow> bool) \<Rightarrow> database \<Rightarrow> nat \<times> database" where
  "exportScheduleExecution_deleteMany wh db =
     (length (filter wh (exportScheduleExecution db)),
      db\<lparr>exportScheduleExecution := filter (\<lambda>e. \<not> wh e) (exportScheduleExecution db)\<rparr>)"

subsection \<open>The collaborators, the tenant context and the request\<close>

text \<open>
  \<^verbatim>\<open>rateLimit\<close>, \<^verbatim>\<open>hasPermission\<close>, the global \<^verbatim>\<open>crypto\<close> object and the clock are not part of
  this source. The model takes their answers as arguments: the \<^verbatim>\<open>success\<close> flag of
  \<^verbatim>\<open>rateLimit(identifier)\<close>, the answer of \<^verbatim>\<open>hasPermission(userId, capability)\<close>, the
  outcome of \<^verbatim>\<open>crypto.getRandomUUID()\<close>, the reading of \<^verbatim>\<open>new Date()\<close> (milliseconds since
  the epoch), the order in which the database returns rows of equal \<^verbatim>\<open>createdAt\<close> (a rank of
  the rows), and the engine's reading of PATCH's update data. The rate limiter, the permission
  check and the database calls other than PATCH's update are taken to complete.

  The file imports no \<^verbatim>\<open>crypto\<close>, so \<^verbatim>\<open>crypto\<close> is the global object of the runtime. Its
  members are \<^verbatim>\<open>randomUUID\<close>, \<^verbatim>\<open>getRandomValues\<close> and \<^verbatim>\<open>subtle\<close>; it has none called
  \<^verbatim>\<open>getRandomUUID\<close>, so the call throws. That outcome is \<open>None\<close>, and it is the outcome in
  every concrete run below. The general statements hold for either outcome of the call.
\<close>

record collaborators =
  rateLimit :: "string \<Rightarrow> bool"
  hasPermission :: "string \<Rightarrow> string \<Rightarrow> bool"
  getRandomUUID :: "string option"
  new_Date :: int
  tie_order :: "ExportSchedule \<Rightarrow> nat"
  isActive_not_true :: isActive_data

text \<open>The argument \<^verbatim>\<open>requireTenantContext\<close> passes to each handler's callback.\<close>

record tenant_context =
  ctx_tenantId :: string
  ctx_userId :: string

text \<open>
  The JSON body is an object of which POST reads twelve fields and PATCH two. A field is
  \<open>None\<close> when the object does not have it; the fields carry the types the handlers
  expect of them.
\<close>

record json_body =
  b_name :: "string option"
  b_description :: "string option"
  b_frequency :: "string option"
  b_format :: "string option"
  b_recipients :: "string list option"
  b_dayOfWeek :: "int option"
  b_dayOfMonth :: "int option"
  b_time :: "string option"
  b_emailSubject :: "string option"
  b_emailBody :: "string option"
  b_filterPresetId :: "string option"
  b_isActive :: "bool option"
  b_action :: "string option"
  b_scheduleIds :: "string list option"

text \<open>
  Of the request the handlers read the header \<^verbatim>\<open>x-forwarded-for\<close>, the search parameter
  \<^verbatim>\<open>ids\<close> and the body; \<open>json = None\<close> is a body that \<^verbatim>\<open>request.json()\<close> cannot parse.
\<close>

record request =
  x_forwarded_for :: "string option"
  ids_param :: "string option"
  json :: "json_body option"

subsection \<open>Responses\<close>

text \<open>One constructor for each \<^verbatim>\<open>NextResponse.json\<close> of the file; \<open>http_status\<close> is its status.\<close>

datatype response =
    RateLimitExceeded
  | ForbiddenResponse
  | MissingRequiredFields
  | InvalidExportFormat
  | InvalidRecipientEmails
  | MaximumSchedulesReached
  | InvalidAction
  | NoScheduleIDsProvided
  | FailedResponse
  | ScheduleList "(ExportSchedule \<times> nat) list"
  | ScheduleCreated ExportSchedule
  | SchedulesUpdated
  | SchedulesDeleted nat

fun http_status :: "response \<Rightarrow> nat" where
  "http_status RateLimitExceeded = 429"
| "http_status ForbiddenResponse = 403"
| "http_status MissingRequiredFields = 400"
| "http_status InvalidExportFormat = 400"
| "http_status InvalidRecipientEmails = 400"
| "http_status MaximumSchedulesReached = 400"
| "http_status InvalidAction = 400"
| "http_status NoScheduleIDsProvided = 400"
| "http_status FailedResponse = 500"
| "http_status (ScheduleList l) = 200"
| "http_status (ScheduleCreated s) = 200"
| "http_status SchedulesUpdated = 200"
| "http_status (SchedulesDeleted n) = 200"

text \<open>The specification's names for the results.\<close>

datatype outcome = RateLimited | Forbidden | ValidationError | QuotaExceeded | Internal | Success

fun outcome_of :: "response \<Rightarrow> outcome" where
  "outcome_of RateLimitExceeded = RateLimited"
| "outcome_of ForbiddenResponse = Forbidden"
| "outcome_of MissingRequiredFields = ValidationError"
| "outcome_of InvalidExportFormat = ValidationError"
| "outcome_of InvalidRecipientEmails = ValidationError"
| "outcome_of MaximumSchedulesReached = QuotaExceeded"
| "outcome_of InvalidAction = ValidationError"
| "outcome_of NoScheduleIDsProvided = ValidationError"
| "outcome_of FailedResponse = Internal"
| "outcome_of (ScheduleList l) = Success"
| "outcome_of (ScheduleCreated s) = Success"
| "outcome_of SchedulesUpdated = Success"
| "outcome_of (SchedulesDeleted n) = Success"

subsection \<open>JavaScript helpers\<close>

text \<open>\<^verbatim>\<open>s || d\<close> on a string that may be absent: the empty string is falsy.\<close>

definition or_string :: "string option \<Rightarrow> string \<Rightarrow> string" where
  "or_string v d = (case v of None \<Rightarrow> d | Some s \<Rightarrow> if s = [] then d else s)"

text \<open>\<^verbatim>\<open>v || null\<close>: the empty string and the number 0 are falsy.\<close>

definition string_or_null :: "string option \<Rightarrow> string option" where
  "string_or_null v = (case v of None \<Rightarrow> None | Some s \<Rightarrow> if s = [] then None else Some s)"

definition number_or_null :: "int option \<Rightarrow> int option" where
  "number_or_null v = (case v of None \<Rightarrow> None | Some n \<Rightarrow> if n = 0 then None else Some n)"

text \<open>\<^verbatim>\<open>s.split(',')\<close>: the empty string gives one empty piece.\<close>

fun split_comma :: "string \<Rightarrow> string list" where
  "split_comma [] = [[]]"
| "split_comma (c # cs) =
     (if c = CHR '','' then [] # split_comma cs
      else (case split_comma cs of [] \<Rightarrow> [[c]] | w # ws \<Rightarrow> (c # w) # ws))"

subsection \<open>Regular expressions and \<^verbatim>\<open>emailRegex\<close>\<close>

datatype regexp =
    Nothing
  | Empty
  | Class "char \<Rightarrow> bool"
  | Either regexp regexp
  | Then regexp regexp
  | Many regexp

definition OneOrMore :: "regexp \<Rightarrow> regexp" where
  "OneOrMore r = Then r (Many r)"

definition Literal :: "char \<Rightarrow> regexp" where
  "Literal a = Class (\<lambda>c. c = a)"

fun accepts_empty :: "regexp \<Rightarrow> bool" where
  "accepts_empty Nothing = False"
| "accepts_empty Empty = True"
| "accepts_empty (Class p) = False"
| "accepts_empty (Either r s) = (accepts_empty r \<or> accepts_empty s)"
| "accepts_empty (Then r s) = (accepts_empty r \<and> accepts_empty s)"
| "accepts_empty (Many r) = True"

text \<open>What is left of \<open>r\<close> once the character \<open>c\<close> has been read.\<close>

fun after_char :: "char \<Rightarrow> regexp \<Rightarrow> regexp" where
  "after_char c Nothing = Nothing"
| "after_char c Empty = Nothing"
| "after_char c (Class p) = (if p c then Empty else Nothing)"
| "after_char c (Either r s) = Either (after_char c r) (after_char c s)"
| "after_char c (Then r s) =
     (if accepts_empty r then Either (Then (after_char c r) s) (after_char c s)
      else Then (after_char c r) s)"
| "after_char c (Many r) = Then (after_char c r) (Many r)"

text \<open>\<^verbatim>\<open>r.test(s)\<close> for an expression anchored at both ends (\<^verbatim>\<open>/^...$/\<close>).\<close>

fun regexp_test :: "regexp \<Rightarrow> string \<Rightarrow> bool" where
  "regexp_test r [] = accepts_empty r"
| "regexp_test r (c # cs) = regexp_test (after_char c r) cs"

text \<open>The words an expression stands for, to state what \<open>regexp_test\<close> decides.\<close>

inductive_set repeated :: "string set \<Rightarrow> string set" for A :: "string set" where
  none: "[] \<in> repeated A"
| more: "u \<in> A \<Longrightarrow> v \<in> repeated A \<Longrightarrow> u @ v \<in> repeated A"

fun words :: "regexp \<Rightarrow> string set" where
  "words Nothing = {}"
| "words Empty = {[]}"
| "words (Class p) = {[c] | c. p c}"
| "words (Either r s) = words r \<union> words s"
| "words (Then r s) = {u @ v | u v. u \<in> words r \<and> v \<in> words s}"
| "words (Many r) = repeated (words r)"

text \<open>
  \<^verbatim>\<open>\s\<close>: tab, line feed, vertical tab, form feed, carriage return, space and the no-break
  space (the white space among the first 256 code units).
\<close>

definition js_whitespace :: "char \<Rightarrow> bool" where
  "js_whitespace c \<longleftrightarrow> (of_char c :: nat) \<in> {9, 10, 11, 12, 13, 32, 160}"

text \<open>The class \<^verbatim>\<open>[^\s@]\<close>.\<close>

definition not_space_or_at :: "char \<Rightarrow> bool" where
  "not_space_or_at c \<longleftrightarrow> \<not> js_whitespace c \<and> c \<noteq> CHR ''@''"

text \<open>\<^verbatim>\<open>/^[^\s@]+@[^\s@]+\.[^\s@]+$/\<close>\<close>

definition emailRegex :: regexp where
  "emailRegex =
     Then (OneOrMore (Class not_space_or_at))
       (Then (Literal CHR ''@'')
          (Then (OneOrMore (Class not_space_or_at))
             (Then (Literal CHR ''.'') (OneOrMore (Class not_space_or_at)))))"

subsection \<open>The handlers\<close>

text \<open>
  Every handler runs inside \<^verbatim>\<open>try\<close>; what the body throws becomes \<open>FailedResponse\<close> (500)
  with the database as the calls before the throw left it.
\<close>

definition executionCount :: "database \<Rightarrow> ExportSchedule \<Rightarrow> nat" where
  "executionCount db s = length (filter (\<lambda>e. scheduleId e = id' s) (exportScheduleExecution db))"

text \<open>
  \<^verbatim>\<open>orderBy: { createdAt: 'desc' }\<close>: the later row first. The query has no second key, so
  among rows of equal \<^verbatim>\<open>createdAt\<close> the order is the database's: the rank \<open>tie\<close> it gives them
  (\<open>sort_key\<close> is stable, so the second sort keeps the first among equal keys).
\<close>

definition newest_first :: "(ExportSchedule \<Rightarrow> nat) \<Rightarrow> ExportSchedule list \<Rightarrow> ExportSchedule list" where
  "newest_first tie rows = sort_key (\<lambda>s. - createdAt s) (sort_key tie rows)"

definition GET :: "collaborators \<Rightarrow> tenant_context \<Rightarrow> request \<Rightarrow> database \<Rightarrow> response \<times> database" where
  "GET env ctx req db =
     (let identifier = or_string (x_forwarded_for req) ''anonymous'' in
      if \<not> rateLimit env identifier then (RateLimitExceeded, db)
      else if \<not> hasPermission env (ctx_userId ctx) ''admin:users:export'' then (ForbiddenResponse, db)
      else
        let schedules =
              newest_first (tie_order env)
                (exportSchedule_findMany (\<lambda>s. tenantId s = ctx_tenantId ctx) db)
        in (ScheduleList (map (\<lambda>s. (s, executionCount db s)) schedules), db))"

text \<open>The \<^verbatim>\<open>data\<close> object that POST hands to \<^verbatim>\<open>prisma.exportSchedule.create\<close>.\<close>

definition create_data ::
  "string \<Rightarrow> collaborators \<Rightarrow> tenant_context \<Rightarrow> json_body \<Rightarrow> string \<Rightarrow> string \<Rightarrow> string
     \<Rightarrow> string list \<Rightarrow> ExportSchedule" where
  "create_data uuid env ctx body nm fr fm rs =
     \<lparr>id' = uuid,
      name = nm,
      description = b_description body,
      frequency = fr,
      format = fm,
      recipients = rs,
      dayOfWeek = number_or_null (b_dayOfWeek body),
      dayOfMonth = number_or_null (b_dayOfMonth body),
      time = or_string (b_time body) ''09:00'',
      emailSubject = b_emailSubject body,
      emailBody = b_emailBody body,
      filterPresetId = string_or_null (b_filterPresetId body),
      isActive = (case b_isActive body of None \<Rightarrow> True | Some a \<Rightarrow> a),
      tenantId = ctx_tenantId ctx,
      userId = ctx_userId ctx,
      createdAt = new_Date env,
      updatedAt = new_Date env\<rparr>"

definition POST :: "collaborators \<Rightarrow> tenant_context \<Rightarrow> request \<Rightarrow> database \<Rightarrow> response \<times> database" where
  "POST env ctx req db =
     (let identifier = or_string (x_forwarded_for req) ''anonymous'' in
      if \<not> rateLimit env identifier then (RateLimitExceeded, db)
      else if \<not> hasPermission env (ctx_userId ctx) ''admin:users:export'' then (ForbiddenResponse, db)
      else
        (case json req of
           None \<Rightarrow> (FailedResponse, db)
         | Some body \<Rightarrow>
            (case (b_name body, b_frequency body, b_format body, b_recipients body) of
               (Some nm, Some fr, Some fm, Some rs) \<Rightarrow>
                 if nm = [] \<or> fr = [] \<or> fm = [] \<or> rs = [] then (MissingRequiredFields, db)
                 else if fm \<notin> set [''csv'', ''xlsx'', ''json'', ''pdf''] then (InvalidExportFormat, db)
                 else if list_ex (\<lambda>email. \<not> regexp_test emailRegex email) rs
                   then (InvalidRecipientEmails, db)
                 else
                   let existingSchedules =
                         exportSchedule_count (\<lambda>s. tenantId s = ctx_tenantId ctx) db
                   in
                     if existingSchedules \<ge> 20 then (MaximumSchedulesReached, db)
                     else
                       (case getRandomUUID env of
                          None \<Rightarrow> (FailedResponse, db)
                        | Some uuid \<Rightarrow>
                            let schedule = create_data uuid env ctx body nm fr fm rs
                            in (ScheduleCreated schedule, exportSchedule_create schedule db))
             | _ \<Rightarrow> (MissingRequiredFields, db))))"

definition PATCH :: "collaborators \<Rightarrow> tenant_context \<Rightarrow> request \<Rightarrow> database \<Rightarrow> response \<times> database" where
  "PATCH env ctx req db =
     (let identifier = or_string (x_forwarded_for req) ''anonymous'' in
      if \<not> rateLimit env identifier then (RateLimitExceeded, db)
      else if \<not> hasPermission env (ctx_userId ctx) ''admin:users:export'' then (ForbiddenResponse, db)
      else
        (case json req of
           None \<Rightarrow> (FailedResponse, db)
         | Some body \<Rightarrow>
            (case (b_action body, b_scheduleIds body) of
               (Some action, Some scheduleIds) \<Rightarrow>
                 if action = ''toggleActive'' then
                   (case exportSchedule_updateMany (\<lambda>s. id' s \<in> set scheduleIds)
                           (isActive_not_true env) db of
                      None \<Rightarrow> (FailedResponse, db)
                    | Some (n, db') \<Rightarrow> (SchedulesUpdated, db'))
                 else (InvalidAction, db)
             | _ \<Rightarrow> (InvalidAction, db))))"

definition DELETE :: "collaborators \<Rightarrow> tenant_context \<Rightarrow> request \<Rightarrow> database \<Rightarrow> response \<times> database" where
  "DELETE env ctx req db =
     (let identifier = or_string (x_forwarded_for req) ''anonymous'' in
      if \<not> rateLimit env identifier then (RateLimitExceeded, db)
      else if \<not> hasPermission env (ctx_userId ctx) ''admin:users:export'' then (ForbiddenResponse, db)
      else
        let ids = (case ids_param req of None \<Rightarrow> [] | Some v \<Rightarrow> split_comma v) in
        if ids = [] then (NoScheduleIDsProvided, db)
        else
          let (removed, db1) = exportScheduleExecution_deleteMany (\<lambda>e. scheduleId e \<in> set ids) db;
              (deleted, db2) = exportSchedule_deleteMany (\<lambda>s. id' s \<in> set ids) db1
          in (SchedulesDeleted deleted, db2))"

subsection \<open>Sequences of requests\<close>

datatype verb = Get | Post | Patch | Delete

fun handle :: "verb \<Rightarrow> collaborators \<Rightarrow> tenant_context \<Rightarrow> request \<Rightarrow> database \<Rightarrow> response \<times> database" where
  "handle Get = GET"
| "handle Post = POST"
| "handle Patch = PATCH"
| "handle Delete = DELETE"

text \<open>The database after a sequence of requests, served one after the other.\<close>

fun serve :: "(verb \<times> collaborators \<times> tenant_context \<times> request) list \<Rightarrow> database \<Rightarrow> database" where
  "serve [] db = db"
| "serve ((v, env, ctx, req) # calls) db = serve calls (snd (handle v env ctx req db))"

subsection \<open>Predicates the statements below use\<close>

text \<open>The request passes both admission checks.\<close>

definition admitted :: "collaborators \<Rightarrow> tenant_context \<Rightarrow> request \<Rightarrow> bool" where
  "admitted env ctx req \<longleftrightarrow>
     rateLimit env (or_string (x_forwarded_for req) ''anonymous'') \<and>
     hasPermission env (ctx_userId ctx) ''admin:users:export''"

text \<open>
  The syntax \<^verbatim>\<open><local>@<domain>.<tld>\<close> in the specification's words: three non-empty parts
  free of white space and of \<^verbatim>\<open>@\<close>, joined by \<^verbatim>\<open>@\<close> and by a dot.
\<close>

definition address_part :: "string \<Rightarrow> bool" where
  "address_part w \<longleftrightarrow> w \<noteq> [] \<and> list_all not_space_or_at w"

definition address_syntax :: "string \<Rightarrow> bool" where
  "address_syntax s \<longleftrightarrow>
     (\<exists>l d t. s = l @ ''@'' @ d @ ''.'' @ t \<and> address_part l \<and> address_part d \<and> address_part t)"

text \<open>
  The fields other than the recipients that POST checks: a name and a frequency that are
  present and not empty, and one of the four formats.
\<close>

definition name_present :: "json_body \<Rightarrow> bool" where
  "name_present body \<longleftrightarrow> (\<exists>nm. b_name body = Some nm \<and> nm \<noteq> [])"

definition frequency_present :: "json_body \<Rightarrow> bool" where
  "frequency_present body \<longleftrightarrow> (\<exists>fr. b_frequency body = Some fr \<and> fr \<noteq> [])"

definition format_valid :: "json_body \<Rightarrow> bool" where
  "format_valid body \<longleftrightarrow>
     (\<exists>fm. b_format body = Some fm \<and> fm \<in> {''csv'', ''xlsx'', ''json'', ''pdf''})"

definition other_fields_valid :: "json_body \<Rightarrow> bool" where
  "other_fields_valid body \<longleftrightarrow> name_present body \<and> frequency_present body \<and> format_valid body"

definition recipients_valid :: "json_body \<Rightarrow> bool" where
  "recipients_valid body \<longleftrightarrow>
     (\<exists>rs. b_recipients body = Some rs \<and> rs \<noteq> [] \<and> list_all address_syntax rs)"

definition tenant_count :: "string \<Rightarrow> database \<Rightarrow> nat" where
  "tenant_count t db = exportSchedule_count (\<lambda>s. tenantId s = t) db"

subsection \<open>The recurrence engine\<close>

text \<open>
  Modelled from the spec: \<^verbatim>\<open>nextFireTime\<close> (the Recurrence Engine of section 4.1) is not in
  the source files, which hold the route and two page components only. The weekly rule is
  written after the specification's words: the next occurrence of \<^verbatim>\<open>dayOfWeek\<close> at \<^verbatim>\<open>time\<close>
  strictly after \<^verbatim>\<open>after\<close>. Timestamps are milliseconds since the epoch in the one
  configured zone, UTC; day 0 is Sunday, and the epoch fell on a Thursday. The candidates are
  \<^verbatim>\<open>time\<close> on the day of \<^verbatim>\<open>after\<close> and on each of the seven days that follow.
\<close>

definition ms_per_day :: int where
  "ms_per_day = 86400000"

definition utc_day_of_week :: "int \<Rightarrow> int" where
  "utc_day_of_week t = (t div ms_per_day + 4) mod 7"

definition utc_time_of_day :: "int \<Rightarrow> int" where
  "utc_time_of_day t = t mod ms_per_day"

definition digit :: "char \<Rightarrow> int option" where
  "digit c = (let n = (of_char c :: nat) in if 48 \<le> n \<and> n \<le> 57 then Some (int n - 48) else None)"

text \<open>\<^verbatim>\<open>HH:MM\<close> on the 24-hour clock, as milliseconds into the day.\<close>

fun parse_time :: "string \<Rightarrow> int option" where
  "parse_time [h1, h2, sep, m1, m2] =
     (case (digit h1, digit h2, digit m1, digit m2) of
        (Some a, Some b, Some c, Some d) \<Rightarrow>
          if sep = CHR '':'' \<and> 10 * a + b < 24 \<and> 10 * c + d < 60
          then Some (((10 * a + b) * 60 + (10 * c + d)) * 60000)
          else None
      | _ \<Rightarrow> None)"
| "parse_time s = None"

text \<open>
  Modelled from the spec: the occurrences of \<^verbatim>\<open>time\<close> that the weekly rule of
  \<^verbatim>\<open>nextFireTime\<close>, which the source files do not hold, chooses from.
\<close>

definition weekly_candidates :: "int \<Rightarrow> int \<Rightarrow> int list" where
  "weekly_candidates time_of_day after =
     map (\<lambda>k. (after div ms_per_day + k) * ms_per_day + time_of_day) [0..7]"

text \<open>
  Modelled from the spec: \<^verbatim>\<open>nextFireTime(schedule, after)\<close> for a schedule whose frequency is
  weekly, which the source files do not hold: the first candidate strictly after \<^verbatim>\<open>after\<close>
  that falls on the schedule's day of the week. The result is \<open>None\<close> when the schedule has
  no day or its time is not of the form \<^verbatim>\<open>HH:MM\<close>.
\<close>

definition nextFireTime_weekly :: "ExportSchedule \<Rightarrow> int \<Rightarrow> int option" where
  "nextFireTime_weekly schedule after =
     (case (dayOfWeek schedule, parse_time (time schedule)) of
        (Some d, Some time_of_day) \<Rightarrow>
          find (\<lambda>t. after < t \<and> utc_day_of_week t = d) (weekly_candidates time_of_day after)
      | _ \<Rightarrow> None)"

subsection \<open>Concrete inputs\<close>

text \<open>
  Collaborators that admit every request; \<^verbatim>\<open>crypto.getRandomUUID()\<close> throws, as it does in the
  runtime.
\<close>

definition allow_all :: collaborators where
  "allow_all =
     \<lparr>rateLimit = (\<lambda>identifier. True),
      hasPermission = (\<lambda>subject capability. True),
      getRandomUUID = None,
      new_Date = 1700000000000,
      tie_order = (\<lambda>s. 0),
      isActive_not_true = Refused\<rparr>"

definition deny_rate :: collaborators where
  "deny_rate = allow_all\<lparr>rateLimit := (\<lambda>identifier. False)\<rparr>"

definition deny_both :: collaborators where
  "deny_both = deny_rate\<lparr>hasPermission := (\<lambda>subject capability. False)\<rparr>"

definition deny_permission :: collaborators where
  "deny_permission = allow_all\<lparr>hasPermission := (\<lambda>subject capability. False)\<rparr>"

definition tenant1 :: tenant_context where
  "tenant1 = \<lparr>ctx_tenantId = ''t1'', ctx_userId = ''u1''\<rparr>"

definition no_body :: json_body where
  "no_body =
     \<lparr>b_name = None, b_description = None, b_frequency = None, b_format = None,
      b_recipients = None, b_dayOfWeek = None, b_dayOfMonth = None, b_time = None,
      b_emailSubject = None, b_emailBody = None, b_filterPresetId = None, b_isActive = None,
      b_action = None, b_scheduleIds = None\<rparr>"

text \<open>A create body with the four required fields and nothing else.\<close>

definition weekly_body :: json_body where
  "weekly_body =
     no_body\<lparr>b_name := Some ''Users'', b_frequency := Some ''weekly'', b_format := Some ''csv'',
             b_recipients := Some [''ops@example.com'', ''cfo@example.org'']\<rparr>"

definition create_request :: "json_body \<Rightarrow> request" where
  "create_request body = \<lparr>x_forwarded_for = Some ''10.0.0.1'', ids_param = None, json = Some body\<rparr>"

text \<open>A schedule row of tenant \<open>t\<close> with identifier \<open>i\<close>.\<close>

definition row :: "string \<Rightarrow> string \<Rightarrow> bool \<Rightarrow> ExportSchedule" where
  "row i t a =
     \<lparr>id' = i, name = ''Users'', description = None, frequency = ''daily'', format = ''csv'',
      recipients = [''ops@example.com''], dayOfWeek = None, dayOfMonth = None, time = ''09:00'',
      emailSubject = None, emailBody = None, filterPresetId = None, isActive = a,
      tenantId = t, userId = ''u1'', createdAt = 0, updatedAt = 0\<rparr>"

text \<open>A database in which tenant \<open>t1\<close> has \<open>n\<close> schedules \<open>x\<close>, \<open>xx\<close>, \<open>xxx\<close>, ...\<close>

definition filled :: "nat \<Rightarrow> database" where
  "filled n =
     \<lparr>exportSchedule = map (\<lambda>k. row (replicate (Suc k) CHR ''x'') ''t1'' True) [0..<n],
      exportScheduleExecution = []\<rparr>"

definition malformed_body :: json_body where
  "malformed_body = weekly_body\<lparr>b_recipients := Some [''ops@example.com'', ''cfo@example'']\<rparr>"

definition no_recipients_body :: json_body where
  "no_recipients_body = weekly_body\<lparr>b_recipients := Some []\<rparr>"

definition delete_request :: "string \<Rightarrow> request" where
  "delete_request v = \<lparr>x_forwarded_for = None, ids_param = Some v, json = None\<rparr>"

definition toggle_request :: "string list \<Rightarrow> request" where
  "toggle_request ids =
     \<lparr>x_forwarded_for = None, ids_param = None,
      json = Some (no_body\<lparr>b_action := Some ''toggleActive'', b_scheduleIds := Some ids\<rparr>)\<rparr>"

definition execution :: "string \<Rightarrow> string \<Rightarrow> ExportScheduleExecution" where
  "execution e s = \<lparr>execution_id = e, scheduleId = s\<rparr>"

text \<open>Tenant \<open>t1\<close> with three schedules, of which \<open>A\<close> has run twice and \<open>C\<close> once.\<close>

definition three_schedules :: database where
  "three_schedules =
     \<lparr>exportSchedule = [row ''A'' ''t1'' True, row ''B'' ''t1'' False, row ''C'' ''t1'' True],
      exportScheduleExecution = [execution ''e1'' ''A'', execution ''e2'' ''C'', execution ''e3'' ''A'']\<rparr>"

text \<open>Schedule \<open>A\<close> of tenant \<open>t1\<close>, and schedule \<open>B\<close> of tenant \<open>t2\<close>, which has run once.\<close>

definition two_tenants :: database where
  "two_tenants =
     \<lparr>exportSchedule = [row ''A'' ''t1'' True, row ''B'' ''t2'' True],
      exportScheduleExecution = [execution ''e1'' ''B'']\<rparr>"

definition hourly_body :: json_body where
  "hourly_body = weekly_body\<lparr>b_frequency := Some ''hourly''\<rparr>"

definition no_frequency_body :: json_body where
  "no_frequency_body = weekly_body\<lparr>b_frequency := None\<rparr>"

definition xml_body :: json_body where
  "xml_body = weekly_body\<lparr>b_format := Some ''xml''\<rparr>"

definition wednesday_body :: "string \<Rightarrow> json_body" where
  "wednesday_body fr = weekly_body\<lparr>b_frequency := Some fr, b_dayOfWeek := Some 3\<rparr>"

text \<open>A weekly schedule for Wednesdays at 09:00.\<close>

definition wednesdays :: ExportSchedule where
  "wednesdays = (row ''W'' ''t1'' True)\<lparr>frequency := ''weekly'', dayOfWeek := Some 3\<rparr>"

section \<open>Properties\<close>

subsection \<open>What \<open>regexp_test\<close> decides\<close>

lemma accepts_empty_words: "accepts_empty r \<longleftrightarrow> [] \<in> words r"
  by (induction r) (auto intro: repeated.none)

lemma repeated_cons:
  "c # w \<in> repeated A \<longleftrightarrow> (\<exists>u v. w = u @ v \<and> c # u \<in> A \<and> v \<in> repeated A)"
proof
  assume "c # w \<in> repeated A"
  then show "\<exists>u v. w = u @ v \<and> c # u \<in> A \<and> v \<in> repeated A"
  proof (induction "c # w" rule: repeated.induct)
    case (more u v)
    show ?case
    proof (cases u)
      case Nil
      with more show ?thesis by simp
    next
      case (Cons a u')
      with more(1,2,4) show ?thesis by auto
    qed
  qed
next
  assume "\<exists>u v. w = u @ v \<and> c # u \<in> A \<and> v \<in> repeated A"
  then obtain u v where "w = u @ v" "c # u \<in> A" "v \<in> repeated A" by blast
  then show "c # w \<in> repeated A"
    using repeated.more [of "c # u" A v] by simp
qed

lemma cons_in_Then:
  "c # w \<in> words (Then r s) \<longleftrightarrow>
     (\<exists>u v. w = u @ v \<and> c # u \<in> words r \<and> v \<in> words s) \<or> ([] \<in> words r \<and> c # w \<in> words s)"
  by (simp add: Cons_eq_append_conv) blast

lemma after_char_words: "w \<in> words (after_char c r) \<longleftrightarrow> c # w \<in> words r"
proof (induction r arbitrary: w)
  case (Then r s)
  have "w \<in> words (after_char c (Then r s)) \<longleftrightarrow>
          (\<exists>u v. w = u @ v \<and> u \<in> words (after_char c r) \<and> v \<in> words s) \<or>
          (accepts_empty r \<and> w \<in> words (after_char c s))"
    by auto
  also have "\<dots> \<longleftrightarrow> c # w \<in> words (Then r s)"
    unfolding cons_in_Then accepts_empty_words Then ..
  finally show ?case .
next
  case (Many r)
  have "w \<in> words (after_char c (Many r)) \<longleftrightarrow>
          (\<exists>u v. w = u @ v \<and> u \<in> words (after_char c r) \<and> v \<in> repeated (words r))"
    by auto
  also have "\<dots> \<longleftrightarrow> c # w \<in> words (Many r)"
    unfolding Many by (simp add: repeated_cons)
  finally show ?case .
qed auto

lemma regexp_test_words: "regexp_test r w \<longleftrightarrow> w \<in> words r"
  by (induction w arbitrary: r) (simp_all add: accepts_empty_words after_char_words)

lemma repeated_Class: "repeated {[c] | c. p c} = {w. list_all p w}"
proof (rule set_eqI, rule iffI)
  fix w assume "w \<in> repeated {[c] | c. p c}"
  then show "w \<in> {w. list_all p w}"
    by (induction rule: repeated.induct) auto
next
  fix w assume "w \<in> {w. list_all p w}"
  then have "list_all p w" by simp
  then show "w \<in> repeated {[c] | c. p c}"
  proof (induction w)
    case Nil
    show ?case by (rule repeated.none)
  next
    case (Cons a w)
    then have "[a] \<in> {[c] | c. p c}" "w \<in> repeated {[c] | c. p c}" by auto
    from repeated.more [OF this] show ?case by simp
  qed
qed

lemma words_OneOrMore_Class: "words (OneOrMore (Class p)) = {w. w \<noteq> [] \<and> list_all p w}"
proof (rule set_eqI, rule iffI)
  fix w assume "w \<in> words (OneOrMore (Class p))"
  then show "w \<in> {w. w \<noteq> [] \<and> list_all p w}"
    by (auto simp: OneOrMore_def repeated_Class)
next
  fix w assume "w \<in> {w. w \<noteq> [] \<and> list_all p w}"
  then obtain c v where "w = [c] @ v" "p c" "list_all p v"
    by (cases w) auto
  then show "w \<in> words (OneOrMore (Class p))"
    unfolding OneOrMore_def words.simps repeated_Class by blast
qed

lemma words_Literal: "words (Literal a) = {[a]}"
  by (auto simp: Literal_def)

lemma emailRegex_address_syntax: "regexp_test emailRegex s \<longleftrightarrow> address_syntax s"
  unfolding regexp_test_words emailRegex_def address_syntax_def address_part_def
    words.simps(5) words_OneOrMore_Class words_Literal
  by (simp, blast)

subsection \<open>Creates that pass the checks\<close>

text \<open>
  What POST answers once the request is admitted and its fields are valid: the limit
  response, or else what the call of \<^verbatim>\<open>crypto.getRandomUUID()\<close> decides.
\<close>

lemma POST_validated:
  assumes "admitted env ctx req" and "json req = Some body"
    and "other_fields_valid body" and "recipients_valid body"
  shows "\<exists>nm fr fm rs.
           b_name body = Some nm \<and> b_frequency body = Some fr \<and> b_format body = Some fm \<and>
           b_recipients body = Some rs \<and>
           POST env ctx req db =
             (if 20 \<le> tenant_count (ctx_tenantId ctx) db then (MaximumSchedulesReached, db)
              else
                (case getRandomUUID env of
                   None \<Rightarrow> (FailedResponse, db)
                 | Some uuid \<Rightarrow>
                     (ScheduleCreated (create_data uuid env ctx body nm fr fm rs),
                      exportSchedule_create (create_data uuid env ctx body nm fr fm rs) db)))"
proof -
  from assms(3) obtain nm fr fm where f:
    "b_name body = Some nm" "nm \<noteq> []" "b_frequency body = Some fr" "fr \<noteq> []"
    "b_format body = Some fm" "fm \<in> {''csv'', ''xlsx'', ''json'', ''pdf''}"
    unfolding other_fields_valid_def name_present_def frequency_present_def format_valid_def
    by blast
  from assms(4) obtain rs where r:
    "b_recipients body = Some rs" "rs \<noteq> []" "list_all (regexp_test emailRegex) rs"
    unfolding recipients_valid_def emailRegex_address_syntax by blast
  from assms(1,2) f r have
    "POST env ctx req db =
       (if 20 \<le> tenant_count (ctx_tenantId ctx) db then (MaximumSchedulesReached, db)
        else
          (case getRandomUUID env of
             None \<Rightarrow> (FailedResponse, db)
           | Some uuid \<Rightarrow>
               (ScheduleCreated (create_data uuid env ctx body nm fr fm rs),
                exportSchedule_create (create_data uuid env ctx body nm fr fm rs) db)))"
    by (auto simp add: POST_def admitted_def tenant_count_def list_ex_iff list_all_iff Let_def
        split: option.splits)
  with f r show ?thesis by blast
qed

lemma POST_not_validation_error:
  assumes "admitted env ctx req" and "json req = Some body"
    and "other_fields_valid body" and "recipients_valid body"
  shows "outcome_of (fst (POST env ctx req db)) \<noteq> ValidationError"
proof -
  from POST_validated [OF assms, of db] obtain nm fr fm rs where
    "POST env ctx req db =
       (if 20 \<le> tenant_count (ctx_tenantId ctx) db then (MaximumSchedulesReached, db)
        else
          (case getRandomUUID env of
             None \<Rightarrow> (FailedResponse, db)
           | Some uuid \<Rightarrow>
               (ScheduleCreated (create_data uuid env ctx body nm fr fm rs),
                exportSchedule_create (create_data uuid env ctx body nm fr fm rs) db)))"
    by blast
  then show ?thesis
    by (simp split: option.splits)
qed

text \<open>When the call throws, a valid create below the limit is answered 500.\<close>

lemma POST_throws:
  assumes "admitted env ctx req" and "json req = Some body"
    and "other_fields_valid body" and "recipients_valid body"
    and "tenant_count (ctx_tenantId ctx) db < 20" and "getRandomUUID env = None"
  shows "POST env ctx req db = (FailedResponse, db)"
  using POST_validated [OF assms(1-4), of db] assms(5,6) by auto

text \<open>When the call throws, no request at all creates a schedule.\<close>

lemma POST_never_creates:
  assumes "getRandomUUID env = None"
  shows "snd (POST env ctx req db) = db \<and> outcome_of (fst (POST env ctx req db)) \<noteq> Success"
  using assms
  by (auto simp add: POST_def Let_def split: option.splits)

lemma weekly_body_valid: "other_fields_valid weekly_body \<and> recipients_valid weekly_body"
  by (simp add: other_fields_valid_def name_present_def frequency_present_def format_valid_def
      recipients_valid_def weekly_body_def no_body_def emailRegex_address_syntax [symmetric]
      emailRegex_def OneOrMore_def Literal_def
      not_space_or_at_def js_whitespace_def)

lemma allow_all_admits: "admitted allow_all tenant1 (create_request b)"
  by (simp add: admitted_def allow_all_def)

lemma allow_all_throws: "getRandomUUID allow_all = None"
  by (simp add: allow_all_def)

lemma json_create_request: "json (create_request b) = Some b"
  by (simp add: create_request_def)

lemma tenant_count_filled: "tenant_count ''t1'' (filled n) = n"
  by (simp add: tenant_count_def exportSchedule_count_def filled_def row_def filter_map o_def)

lemma tenant_count_empty: "tenant_count t empty_database = 0"
  by (simp add: tenant_count_def exportSchedule_count_def empty_database_def)

text \<open>With the collaborators \<open>allow_all\<close>, a valid create of tenant \<open>t1\<close> below the limit.\<close>

lemma POST_allow_all:
  assumes "other_fields_valid b" and "recipients_valid b" and "tenant_count ''t1'' db < 20"
  shows "POST allow_all tenant1 (create_request b) db = (FailedResponse, db)"
proof -
  from assms(3) have "tenant_count (ctx_tenantId tenant1) db < 20"
    by (simp add: tenant1_def)
  from POST_throws [OF allow_all_admits json_create_request assms(1,2) this allow_all_throws]
  show ?thesis .
qed

lemma POST_weekly_body:
  assumes "tenant_count ''t1'' db < 20"
  shows "POST allow_all tenant1 (create_request weekly_body) db = (FailedResponse, db)"
  using weekly_body_valid assms by (intro POST_allow_all) simp_all

subsection \<open>Defaults of a created schedule\<close>

text \<open>The data object has the two defaults: the handler sets them.\<close>

lemma create_data_defaults:
  "b_isActive body = None \<Longrightarrow> isActive (create_data uuid env ctx body nm fr fm rs)"
  "b_time body = None \<Longrightarrow> time (create_data uuid env ctx body nm fr fm rs) = ''09:00''"
  by (simp_all add: create_data_def or_string_def)

text \<open>
  Claim C10 at a concrete input. An admitted create with valid fields that has neither
  \<^verbatim>\<open>isActive\<close> nor \<^verbatim>\<open>time\<close>, for a tenant with no schedule yet, passes every check, and then
  \<^verbatim>\<open>crypto.getRandomUUID()\<close> throws while the data object is built: the answer is 500 and no
  schedule is persisted, so none carries the defaults.
\<close>

theorem POST_defaults_not_persisted:
  "b_isActive weekly_body = None \<and> b_time weekly_body = None \<and>
   POST allow_all tenant1 (create_request weekly_body) empty_database =
     (FailedResponse, empty_database)"
  by (simp add: POST_weekly_body tenant_count_empty) (simp add: weekly_body_def no_body_def)

subsection \<open>Admission\<close>

text \<open>
  Claim C8. In each of the four handlers the rate limiter is asked first, with the
  \<^verbatim>\<open>x-forwarded-for\<close> header or \<^verbatim>\<open>anonymous\<close> as its key: when it denies, the answer is the
  rate-limit response (429) whatever the capability check would say. When it allows and
  \<^verbatim>\<open>hasPermission\<close> denies \<^verbatim>\<open>admin:users:export\<close>, the answer is the forbidden response
  (403). In both cases the database is returned as it was, whatever the request holds.
\<close>

theorem admission_order:
  "(\<not> rateLimit env (or_string (x_forwarded_for req) ''anonymous'') \<longrightarrow>
      handle v env ctx req db = (RateLimitExceeded, db) \<and>
      outcome_of (fst (handle v env ctx req db)) = RateLimited) \<and>
   (rateLimit env (or_string (x_forwarded_for req) ''anonymous'') \<and>
    \<not> hasPermission env (ctx_userId ctx) ''admin:users:export'' \<longrightarrow>
      handle v env ctx req db = (ForbiddenResponse, db) \<and>
      outcome_of (fst (handle v env ctx req db)) = Forbidden)"
  by (cases v) (simp_all add: GET_def POST_def PATCH_def DELETE_def)

theorem admission_order_witness:
  "handle Post deny_both tenant1 (create_request weekly_body) (filled 2) =
     (RateLimitExceeded, filled 2) \<and>
   handle Delete deny_permission tenant1 (create_request weekly_body) (filled 2) =
     (ForbiddenResponse, filled 2)"
  using admission_order [of deny_both "create_request weekly_body" Post tenant1 "filled 2"]
    admission_order [of deny_permission "create_request weekly_body" Delete tenant1 "filled 2"]
  by (simp add: deny_both_def deny_rate_def deny_permission_def allow_all_def)

subsection \<open>Recipients\<close>

text \<open>Absent, empty or malformed recipients are answered with a validation error.\<close>

lemma POST_rejects_recipients:
  assumes "admitted env ctx req" and "json req = Some body" and "\<not> recipients_valid body"
  shows "outcome_of (fst (POST env ctx req db)) = ValidationError \<and> snd (POST env ctx req db) = db"
  using assms
  by (auto simp add: POST_def admitted_def recipients_valid_def list_ex_iff list_all_iff
      emailRegex_address_syntax Let_def split: option.splits)

lemma POST_malformed_recipient:
  "POST allow_all tenant1 (create_request malformed_body) (filled 3) =
     (InvalidRecipientEmails, filled 3)"
  by (simp add: POST_def Let_def allow_all_def tenant1_def create_request_def malformed_body_def
      weekly_body_def no_body_def or_string_def emailRegex_def OneOrMore_def Literal_def
      not_space_or_at_def js_whitespace_def)

text \<open>
  Claim C4 at a concrete input. An admitted create with the two well-formed recipients
  \<^verbatim>\<open>ops@example.com\<close> and \<^verbatim>\<open>cfo@example.org\<close> and valid other fields, for a tenant with three
  schedules, passes every check, and then \<^verbatim>\<open>crypto.getRandomUUID()\<close> throws: the answer is 500
  and nothing is written, where the claim has the create succeed.
\<close>

theorem POST_valid_recipients_fail:
  "recipients_valid weekly_body \<and> other_fields_valid weekly_body \<and>
   POST allow_all tenant1 (create_request weekly_body) (filled 3) = (FailedResponse, filled 3)"
  by (simp add: POST_weekly_body tenant_count_filled weekly_body_valid)

subsection \<open>The limit of 20 schedules for a tenant\<close>

lemma POST_no_write_at_limit:
  assumes "20 \<le> tenant_count (ctx_tenantId ctx) db"
  shows "snd (POST env ctx req db) = db \<and> outcome_of (fst (POST env ctx req db)) \<noteq> Success"
  using assms
  by (auto simp add: POST_def tenant_count_def Let_def split: option.splits)

lemma POST_at_limit:
  assumes "admitted env ctx req" and "json req = Some body"
    and "other_fields_valid body" and "recipients_valid body"
    and "20 \<le> tenant_count (ctx_tenantId ctx) db"
  shows "POST env ctx req db = (MaximumSchedulesReached, db)"
  using assms
  by (auto simp add: POST_def admitted_def tenant_count_def other_fields_valid_def
      name_present_def frequency_present_def format_valid_def recipients_valid_def
      emailRegex_address_syntax list_ex_iff list_all_iff Let_def)

lemma tenant_count_create:
  "tenant_count t (exportSchedule_create s db) =
     (if tenantId s = t then Suc (tenant_count t db) else tenant_count t db)"
  by (simp add: tenant_count_def exportSchedule_count_def exportSchedule_create_def)

lemma tenantId_create_data: "tenantId (create_data uuid env ctx body nm fr fm rs) = ctx_tenantId ctx"
  by (simp add: create_data_def)

lemma tenant_count_POST:
  assumes "tenant_count t db \<le> 20"
  shows "tenant_count t (snd (POST env ctx req db)) \<le> 20"
  using assms
  by (auto simp add: POST_def Let_def tenant_count_create tenantId_create_data
      tenant_count_def [symmetric] split: option.splits)

lemma tenantId_if_isActive: "tenantId (if c then s\<lparr>isActive := b\<rparr> else s) = tenantId s"
  by simp

lemma tenant_count_updateMany:
  "exportSchedule_updateMany wh d db = Some (n, db') \<Longrightarrow> tenant_count t db' = tenant_count t db"
  by (cases d)
    (auto simp add: exportSchedule_updateMany_def tenant_count_def exportSchedule_count_def
      filter_map o_def tenantId_if_isActive)

lemma tenant_count_PATCH: "tenant_count t (snd (PATCH env ctx req db)) = tenant_count t db"
  by (auto simp add: PATCH_def Let_def tenant_count_updateMany split: option.splits)

lemma length_filter_conj_le: "length (filter (\<lambda>x. P x \<and> Q x) xs) \<le> length (filter Q xs)"
  by (induction xs) auto

lemma tenant_count_deleteMany:
  "tenant_count t (snd (exportSchedule_deleteMany wh db)) \<le> tenant_count t db"
  by (simp add: exportSchedule_deleteMany_def tenant_count_def exportSchedule_count_def
      length_filter_conj_le)

lemma tenant_count_execution_deleteMany:
  "tenant_count t (snd (exportScheduleExecution_deleteMany wh db)) = tenant_count t db"
  by (simp add: exportScheduleExecution_deleteMany_def tenant_count_def exportSchedule_count_def)

lemma tenant_count_DELETE: "tenant_count t (snd (DELETE env ctx req db)) \<le> tenant_count t db"
proof -
  have "tenant_count t (snd (exportSchedule_deleteMany wh
          (snd (exportScheduleExecution_deleteMany wh' db)))) \<le> tenant_count t db" for wh wh'
    using tenant_count_deleteMany [of t wh "snd (exportScheduleExecution_deleteMany wh' db)"]
    by (simp add: tenant_count_execution_deleteMany)
  then show ?thesis
    by (simp add: DELETE_def Let_def split_beta)
qed

lemma tenant_count_GET: "snd (GET env ctx req db) = db"
  by (simp add: GET_def Let_def)

lemma tenant_count_handle:
  assumes "tenant_count t db \<le> 20"
  shows "tenant_count t (snd (handle v env ctx req db)) \<le> 20"
proof (cases v)
  case Get
  with assms show ?thesis by (simp add: tenant_count_GET)
next
  case Post
  with assms show ?thesis by (simp add: tenant_count_POST)
next
  case Patch
  with assms show ?thesis by (simp add: tenant_count_PATCH)
next
  case Delete
  with assms tenant_count_DELETE [of t env ctx req db] show ?thesis by simp
qed

lemma tenant_count_serve:
  "tenant_count t db \<le> 20 \<Longrightarrow> tenant_count t (serve calls db) \<le> 20"
proof (induction calls arbitrary: db)
  case Nil
  then show ?case by simp
next
  case (Cons c calls)
  obtain v env ctx req where c: "c = (v, env, ctx, req)" by (cases c)
  from Cons.prems have "tenant_count t (snd (handle v env ctx req db)) \<le> 20"
    by (rule tenant_count_handle)
  then show ?case unfolding c by (simp add: Cons.IH)
qed

text \<open>
  At the limit POST writes nothing and does not succeed, whatever the request, and however
  many requests of the four kinds are served one after the other from the empty database, no
  tenant has more than 20 schedules.
\<close>

lemma at_most_20_per_tenant: "tenant_count t (serve calls empty_database) \<le> 20"
  by (rule tenant_count_serve) (simp add: tenant_count_empty)

text \<open>
  POST checks the fields before it counts: at the limit a create without recipients is
  answered with the validation error, not with the limit response.
\<close>

lemma POST_invalid_at_limit:
  "POST allow_all tenant1 (create_request no_recipients_body) (filled 20) =
     (MissingRequiredFields, filled 20)"
  by (simp add: POST_def Let_def allow_all_def tenant1_def create_request_def
      no_recipients_body_def weekly_body_def no_body_def or_string_def)

text \<open>
  Claim C2 at a concrete input. Tenant \<open>t1\<close> has 19 schedules and sends an admitted create with
  valid fields, the 20th. The checks pass and the count is below the limit; then
  \<^verbatim>\<open>crypto.getRandomUUID()\<close> throws. The answer is 500 and the tenant still has 19 schedules,
  where the claim has the 20th create succeed.
\<close>

theorem POST_twentieth_create_fails:
  "tenant_count ''t1'' (filled 19) = 19 \<and>
   POST allow_all tenant1 (create_request weekly_body) (filled 19) = (FailedResponse, filled 19)"
  by (simp add: POST_weekly_body tenant_count_filled)

subsection \<open>Bulk delete\<close>

lemma split_comma_not_Nil: "split_comma v \<noteq> []"
  by (induction v) (auto split: list.splits)

lemma DELETE_admitted:
  assumes "admitted env ctx req" and "ids_param req = Some v"
  shows "DELETE env ctx req db =
           (SchedulesDeleted (length (filter (\<lambda>s. id' s \<in> set (split_comma v)) (exportSchedule db))),
            snd (exportSchedule_deleteMany (\<lambda>s. id' s \<in> set (split_comma v))
              (snd (exportScheduleExecution_deleteMany (\<lambda>e. scheduleId e \<in> set (split_comma v)) db))))"
  using assms
  by (simp add: DELETE_def admitted_def split_comma_not_Nil Let_def split_beta
      exportSchedule_deleteMany_def exportScheduleExecution_deleteMany_def)

lemma length_filter_not: "length (filter P xs) = length xs - length (filter (\<lambda>x. \<not> P x) xs)"
  using sum_length_filter_compl [of P xs] by simp

text \<open>
  Claim C3. For an admitted DELETE with an \<^verbatim>\<open>ids\<close> parameter, the executions whose schedule
  is in the list are removed first, while every schedule row is still in place; then the
  schedule rows whose identifier is in the list are removed. The answer is a success that
  reports the number of schedule rows removed, also when some identifiers of the list match
  no row. Afterwards every remaining execution whose schedule was in the table still has its
  schedule there: none refers to a deleted schedule.
\<close>

theorem DELETE_cascade:
  assumes "admitted env ctx req" and "ids_param req = Some v"
  shows "let ids = split_comma v;
             db1 = snd (exportScheduleExecution_deleteMany (\<lambda>e. scheduleId e \<in> set ids) db);
             db2 = snd (exportSchedule_deleteMany (\<lambda>s. id' s \<in> set ids) db1);
             deleted = length (exportSchedule db) - length (exportSchedule db2)
         in DELETE env ctx req db = (SchedulesDeleted deleted, db2) \<and>
            exportSchedule db1 = exportSchedule db \<and>
            exportScheduleExecution db1 =
              filter (\<lambda>e. scheduleId e \<notin> set ids) (exportScheduleExecution db) \<and>
            exportScheduleExecution db2 = exportScheduleExecution db1 \<and>
            exportSchedule db2 = filter (\<lambda>s. id' s \<notin> set ids) (exportSchedule db) \<and>
            (\<forall>e \<in> set (exportScheduleExecution db2). \<forall>s \<in> set (exportSchedule db).
               scheduleId e = id' s \<longrightarrow> s \<in> set (exportSchedule db2))"
proof -
  let ?ids = "split_comma v"
  let ?db1 = "snd (exportScheduleExecution_deleteMany (\<lambda>e. scheduleId e \<in> set ?ids) db)"
  let ?db2 = "snd (exportSchedule_deleteMany (\<lambda>s. id' s \<in> set ?ids) ?db1)"
  have s1: "exportSchedule ?db1 = exportSchedule db"
    by (simp add: exportScheduleExecution_deleteMany_def)
  have e1: "exportScheduleExecution ?db1 =
      filter (\<lambda>e. scheduleId e \<notin> set ?ids) (exportScheduleExecution db)"
    by (simp add: exportScheduleExecution_deleteMany_def)
  have e2: "exportScheduleExecution ?db2 = exportScheduleExecution ?db1"
    by (simp add: exportSchedule_deleteMany_def)
  have s2: "exportSchedule ?db2 = filter (\<lambda>s. id' s \<notin> set ?ids) (exportSchedule db)"
    by (simp add: exportSchedule_deleteMany_def s1)
  have n: "length (filter (\<lambda>s. id' s \<in> set ?ids) (exportSchedule db)) =
      length (exportSchedule db) - length (exportSchedule ?db2)"
    unfolding s2 by (rule length_filter_not)
  have d: "DELETE env ctx req db =
      (SchedulesDeleted (length (exportSchedule db) - length (exportSchedule ?db2)), ?db2)"
    using DELETE_admitted [OF assms, of db] n by simp
  have r: "\<forall>e \<in> set (exportScheduleExecution ?db2). \<forall>s \<in> set (exportSchedule db).
      scheduleId e = id' s \<longrightarrow> s \<in> set (exportSchedule ?db2)"
    unfolding e2 e1 s2 by auto
  from d s1 e1 e2 s2 r show ?thesis
    unfolding Let_def by (intro conjI)
qed

theorem DELETE_cascade_witness:
  "DELETE allow_all tenant1 (delete_request ''A,B,Z'') three_schedules =
     (SchedulesDeleted 2,
      \<lparr>exportSchedule = [row ''C'' ''t1'' True],
       exportScheduleExecution = [execution ''e2'' ''C'']\<rparr>)"
proof -
  have a: "admitted allow_all tenant1 (delete_request ''A,B,Z'')"
    by (simp add: admitted_def allow_all_def)
  have i: "ids_param (delete_request ''A,B,Z'') = Some ''A,B,Z''"
    by (simp add: delete_request_def)
  from DELETE_cascade [OF a i, of three_schedules] show ?thesis
    by (simp add: Let_def three_schedules_def row_def execution_def
        exportSchedule_deleteMany_def exportScheduleExecution_deleteMany_def)
qed

subsection \<open>Tenant scope of the bulk operations\<close>

text \<open>
  Claim C1 at a concrete input. The \<^verbatim>\<open>where\<close> of DELETE's two \<^verbatim>\<open>deleteMany\<close> calls (and of
  PATCH's \<^verbatim>\<open>updateMany\<close>) selects by identifier only, where GET and POST select by
  \<^verbatim>\<open>tenantId: context.tenantId\<close>. A caller of tenant \<open>t1\<close> who names schedule \<open>B\<close> of
  tenant \<open>t2\<close> deletes it and its execution, and the deletion is counted.
\<close>

theorem DELETE_other_tenant:
  "DELETE allow_all tenant1 (delete_request ''B'') two_tenants =
     (SchedulesDeleted 1,
      \<lparr>exportSchedule = [row ''A'' ''t1'' True], exportScheduleExecution = []\<rparr>)"
  by (simp add: DELETE_def Let_def allow_all_def tenant1_def delete_request_def two_tenants_def
      row_def execution_def or_string_def exportSchedule_deleteMany_def
      exportScheduleExecution_deleteMany_def)

subsection \<open>Bulk toggle\<close>

text \<open>
  Claim C7 at a concrete input. PATCH writes the one data object
  \<^verbatim>\<open>{ isActive: { not: true } }\<close> to every selected row, so what is written does not depend
  on the row. Of tenant \<open>t1\<close>'s schedules \<open>A\<close> (active), \<open>B\<close> (inactive) and \<open>C\<close> (active), a
  toggle of \<open>A\<close> and \<open>B\<close> would leave the flags False, True, True. Whatever the engine makes
  of the data object, refusing it or assigning one value, that is not the result: at least one
  of the two schedules is not negated.
\<close>

theorem PATCH_toggleActive_no_flip:
  "map isActive (exportSchedule (snd (PATCH (allow_all\<lparr>isActive_not_true := d\<rparr>) tenant1
      (toggle_request [''A'', ''B'']) three_schedules))) \<noteq> [False, True, True]"
  by (cases d)
    (simp_all add: PATCH_def Let_def allow_all_def tenant1_def toggle_request_def no_body_def
      three_schedules_def row_def exportSchedule_updateMany_def or_string_def)

subsection \<open>Frequency and format\<close>

lemma POST_rejects_frequency_format:
  assumes "admitted env ctx req" and "json req = Some body"
    and "\<not> frequency_present body \<or> \<not> format_valid body"
  shows "outcome_of (fst (POST env ctx req db)) = ValidationError \<and> snd (POST env ctx req db) = db"
  using assms
  by (auto simp add: POST_def admitted_def frequency_present_def format_valid_def Let_def
      split: option.splits)

lemma example_bodies:
  "\<not> frequency_present no_frequency_body" "\<not> format_valid xml_body"
  "other_fields_valid hourly_body" "recipients_valid hourly_body"
  by (simp_all add: frequency_present_def format_valid_def other_fields_valid_def name_present_def
      recipients_valid_def no_frequency_body_def xml_body_def hourly_body_def weekly_body_def
      no_body_def emailRegex_address_syntax [symmetric] emailRegex_def OneOrMore_def Literal_def
      not_space_or_at_def js_whitespace_def)

text \<open>
  Claim C5, as the code has it. POST compares the format with the four formats, and of the
  frequency it checks only that it is present and not empty: the file names no frequency
  anywhere. For an admitted create with a readable body, a missing or empty frequency and a
  format that is not one of csv, xlsx, json, pdf are answered with a validation error and
  nothing is written; a create whose checked fields are valid, whatever its frequency string,
  is not answered with a validation error.
\<close>

theorem POST_frequency_format:
  assumes "admitted env ctx req" and "json req = Some body"
  shows "(\<not> frequency_present body \<or> \<not> format_valid body \<longrightarrow>
            outcome_of (fst (POST env ctx req db)) = ValidationError \<and>
            snd (POST env ctx req db) = db) \<and>
         (other_fields_valid body \<and> recipients_valid body \<longrightarrow>
            outcome_of (fst (POST env ctx req db)) \<noteq> ValidationError)"
proof (intro conjI impI)
  assume "\<not> frequency_present body \<or> \<not> format_valid body"
  from POST_rejects_frequency_format [OF assms this]
  show "outcome_of (fst (POST env ctx req db)) = ValidationError"
    and "snd (POST env ctx req db) = db"
    by simp_all
next
  assume "other_fields_valid body \<and> recipients_valid body"
  then have "other_fields_valid body" "recipients_valid body"
    by simp_all
  from POST_not_validation_error [OF assms this]
  show "outcome_of (fst (POST env ctx req db)) \<noteq> ValidationError" .
qed

theorem POST_frequency_format_witness:
  "outcome_of (fst (POST allow_all tenant1 (create_request no_frequency_body) (filled 3))) =
     ValidationError \<and>
   snd (POST allow_all tenant1 (create_request no_frequency_body) (filled 3)) = filled 3 \<and>
   outcome_of (fst (POST allow_all tenant1 (create_request xml_body) (filled 3))) =
     ValidationError \<and>
   snd (POST allow_all tenant1 (create_request xml_body) (filled 3)) = filled 3 \<and>
   outcome_of (fst (POST allow_all tenant1 (create_request hourly_body) (filled 3))) \<noteq>
     ValidationError"
  using POST_frequency_format [OF allow_all_admits json_create_request, of no_frequency_body "filled 3"]
    POST_frequency_format [OF allow_all_admits json_create_request, of xml_body "filled 3"]
    POST_frequency_format [OF allow_all_admits json_create_request, of hourly_body "filled 3"]
    example_bodies
  by simp

text \<open>
  The claim as first stated fails: a create with the frequency \<^verbatim>\<open>hourly\<close> passes the checks as
  the same create with the frequency \<^verbatim>\<open>weekly\<close> does, and gets the same answer, which is the
  500 of the throwing call and not a validation error.
\<close>

theorem POST_hourly_counterexample:
  "b_frequency hourly_body = Some ''hourly'' \<and>
   POST allow_all tenant1 (create_request hourly_body) empty_database =
     (FailedResponse, empty_database) \<and>
   outcome_of (fst (POST allow_all tenant1 (create_request hourly_body) empty_database)) =
     Internal \<and>
   POST allow_all tenant1 (create_request hourly_body) empty_database =
     POST allow_all tenant1 (create_request weekly_body) empty_database"
proof -
  have "POST allow_all tenant1 (create_request hourly_body) empty_database =
      (FailedResponse, empty_database)"
    using example_bodies(3,4) by (intro POST_allow_all) (simp_all add: tenant_count_empty)
  then show ?thesis
    by (simp add: POST_weekly_body tenant_count_empty) (simp add: hourly_body_def)
qed

subsection \<open>Day of the week\<close>

lemma wednesday_body_valid:
  "other_fields_valid (wednesday_body fr) \<longleftrightarrow> fr \<noteq> []" "recipients_valid (wednesday_body fr)"
  by (simp_all add: other_fields_valid_def name_present_def frequency_present_def format_valid_def
      recipients_valid_def wednesday_body_def weekly_body_def
      no_body_def emailRegex_address_syntax [symmetric] emailRegex_def OneOrMore_def Literal_def
      not_space_or_at_def js_whitespace_def)

text \<open>POST reads \<^verbatim>\<open>dayOfWeek\<close> only to build the data object: its outcome does not depend on it.\<close>

lemma POST_outcome_dayOfWeek:
  "outcome_of (fst (POST env ctx (req\<lparr>json := Some (body\<lparr>b_dayOfWeek := d\<rparr>)\<rparr>) db)) =
   outcome_of (fst (POST env ctx (req\<lparr>json := Some body\<rparr>) db))"
  by (auto simp add: POST_def Let_def split: option.splits)

text \<open>
  Claim C6, as the code has it. POST does not check \<^verbatim>\<open>dayOfWeek\<close>: the field is not required
  for any frequency and its range is not checked, so the outcome of a create is the same
  whatever day the body holds or lacks, and an admitted create whose checked fields are valid
  is not answered with a validation error, whatever its frequency and its day.
\<close>

theorem POST_dayOfWeek:
  "outcome_of (fst (POST env ctx (req\<lparr>json := Some (body\<lparr>b_dayOfWeek := d\<rparr>)\<rparr>) db)) =
     outcome_of (fst (POST env ctx (req\<lparr>json := Some body\<rparr>) db)) \<and>
   (admitted env ctx req \<and> json req = Some body \<and> other_fields_valid body \<and>
    recipients_valid body \<longrightarrow>
      outcome_of (fst (POST env ctx req db)) \<noteq> ValidationError)"
proof (intro conjI impI)
  show "outcome_of (fst (POST env ctx (req\<lparr>json := Some (body\<lparr>b_dayOfWeek := d\<rparr>)\<rparr>) db)) =
      outcome_of (fst (POST env ctx (req\<lparr>json := Some body\<rparr>) db))"
    by (rule POST_outcome_dayOfWeek)
next
  assume "admitted env ctx req \<and> json req = Some body \<and> other_fields_valid body \<and>
    recipients_valid body"
  then have "admitted env ctx req" "json req = Some body" "other_fields_valid body"
    "recipients_valid body"
    by simp_all
  then show "outcome_of (fst (POST env ctx req db)) \<noteq> ValidationError"
    by (rule POST_not_validation_error)
qed

theorem POST_dayOfWeek_witness:
  "b_frequency weekly_body = Some ''weekly'' \<and> b_dayOfWeek weekly_body = None \<and>
   outcome_of (fst (POST allow_all tenant1 (create_request weekly_body) (filled 3))) \<noteq>
     ValidationError \<and>
   outcome_of
     (fst (POST allow_all tenant1 (create_request (weekly_body\<lparr>b_dayOfWeek := Some 9\<rparr>)) (filled 3))) =
     outcome_of (fst (POST allow_all tenant1 (create_request weekly_body) (filled 3)))"
proof -
  have c: "create_request b\<lparr>json := Some b'\<rparr> = create_request b'" for b b'
    by (simp add: create_request_def)
  have w: "b_frequency weekly_body = Some ''weekly''" "b_dayOfWeek weekly_body = None"
    by (simp_all add: weekly_body_def no_body_def)
  from POST_dayOfWeek [where env = allow_all and ctx = tenant1
      and req = "create_request weekly_body" and body = weekly_body and d = "Some 9"
      and db = "filled 3"]
    allow_all_admits [of weekly_body] json_create_request [of weekly_body] weekly_body_valid w
  show ?thesis
    by (simp add: c)
qed

text \<open>
  The claim as first stated fails: a weekly create without a day is not answered with a
  validation error. It passes the checks and gets the answer that the same create with day 3
  gets, the 500 of the throwing call.
\<close>

theorem POST_dayOfWeek_counterexample:
  "b_frequency weekly_body = Some ''weekly'' \<and> b_dayOfWeek weekly_body = None \<and>
   outcome_of (fst (POST allow_all tenant1 (create_request weekly_body) empty_database)) =
     Internal \<and>
   POST allow_all tenant1 (create_request (wednesday_body ''weekly'')) empty_database =
     POST allow_all tenant1 (create_request weekly_body) empty_database"
proof -
  have "POST allow_all tenant1 (create_request (wednesday_body ''weekly'')) empty_database =
      (FailedResponse, empty_database)"
    by (intro POST_allow_all) (simp_all add: wednesday_body_valid tenant_count_empty)
  then show ?thesis
    by (simp add: POST_weekly_body tenant_count_empty) (simp add: weekly_body_def no_body_def)
qed

text \<open>
  What the data object would hold, which the amended statement leaves out: the day sent, for
  any frequency, except that \<^verbatim>\<open>dayOfWeek || null\<close> takes the number 0 (Sunday) for a missing
  value.
\<close>

lemma create_data_dayOfWeek:
  "dayOfWeek (create_data uuid env ctx body nm fr fm rs) =
     (case b_dayOfWeek body of None \<Rightarrow> None | Some n \<Rightarrow> if n = 0 then None else Some n)"
  by (simp add: create_data_def number_or_null_def)

subsection \<open>The weekly recurrence\<close>

lemma digit_range: "digit c = Some n \<Longrightarrow> 0 \<le> n \<and> n \<le> 9"
  by (auto simp add: digit_def Let_def split: if_splits)

lemma parse_time_range:
  assumes "parse_time s = Some tod"
  shows "0 \<le> tod \<and> tod < ms_per_day"
proof -
  from assms obtain h1 h2 sep m1 m2 where s: "s = [h1, h2, sep, m1, m2]"
    by (cases s rule: parse_time.cases) simp_all
  from assms obtain a b c d where
    dg: "digit h1 = Some a" "digit h2 = Some b" "digit m1 = Some c" "digit m2 = Some d"
    and lt: "10 * a + b < 24" "10 * c + d < 60"
    and tod: "tod = ((10 * a + b) * 60 + (10 * c + d)) * 60000"
    unfolding s by (auto split: option.splits if_splits)
  from dg have "0 \<le> a" "0 \<le> b" "0 \<le> c" "0 \<le> d"
    by (auto dest: digit_range)
  with lt tod show ?thesis
    unfolding ms_per_day_def by simp
qed

lemma length_weekly_candidates: "length (weekly_candidates tod after) = 8"
  by (simp add: weekly_candidates_def)

lemma nth_weekly_candidates:
  "k < 8 \<Longrightarrow> weekly_candidates tod after ! k = (after div ms_per_day + int k) * ms_per_day + tod"
  by (simp add: weekly_candidates_def)

lemma div_day:
  fixes q r m :: int
  assumes "0 \<le> r" "r < m"
  shows "(q * m + r) div m = q" "(q * m + r) mod m = r"
proof -
  from assms have m: "m \<noteq> 0" by auto
  have "(r + q * m) div m = q + r div m"
    using m by (rule div_mult_self1)
  with assms show "(q * m + r) div m = q"
    by (simp add: add.commute div_pos_pos_trivial)
  have "(r + q * m) mod m = r mod m"
    by (rule mod_mult_self1)
  with assms show "(q * m + r) mod m = r"
    by (simp add: add.commute mod_pos_pos_trivial)
qed

lemma utc_day_of_week_candidate:
  assumes "0 \<le> tod" "tod < ms_per_day"
  shows "utc_day_of_week (q * ms_per_day + tod) = (q + 4) mod 7"
  unfolding utc_day_of_week_def div_day(1) [OF assms] ..

lemma utc_time_of_day_candidate:
  assumes "0 \<le> tod" "tod < ms_per_day"
  shows "utc_time_of_day (q * ms_per_day + tod) = tod"
  unfolding utc_time_of_day_def div_day(2) [OF assms] ..

text \<open>A candidate is after \<open>after\<close> when it is on a later day, or today at a later time.\<close>

lemma after_candidate:
  assumes "0 \<le> tod" "tod < ms_per_day" "0 \<le> k"
  shows "after < (after div ms_per_day + k) * ms_per_day + tod \<longleftrightarrow>
           1 \<le> k \<or> after mod ms_per_day < tod"
proof -
  define q where "q = after div ms_per_day * ms_per_day"
  define r where "r = after mod ms_per_day"
  define km where "km = k * ms_per_day"
  have m: "0 < ms_per_day" by (simp add: ms_per_day_def)
  have a: "after = q + r"
    unfolding q_def r_def by simp
  have r: "0 \<le> r" "r < ms_per_day"
    unfolding r_def using m by simp_all
  have e: "(after div ms_per_day + k) * ms_per_day + tod = q + km + tod"
    unfolding q_def km_def by (simp add: algebra_simps)
  have k: "if 1 \<le> k then ms_per_day \<le> km else km = 0"
  proof (cases "1 \<le> k")
    case True
    then have "1 * ms_per_day \<le> k * ms_per_day"
      using m by (intro mult_right_mono) simp_all
    with True show ?thesis by (simp add: km_def)
  next
    case False
    with assms(3) have "k = 0" by simp
    with False show ?thesis by (simp add: km_def)
  qed
  show ?thesis
    unfolding e r_def [symmetric] using a r k assms(1,2) by (auto split: if_splits)
qed

lemma candidate_accepted:
  assumes "0 \<le> tod" "tod < ms_per_day" "k < 8"
  shows "(after < weekly_candidates tod after ! k \<and>
          utc_day_of_week (weekly_candidates tod after ! k) = d) \<longleftrightarrow>
         (1 \<le> k \<or> after mod ms_per_day < tod) \<and> (after div ms_per_day + int k + 4) mod 7 = d"
  using after_candidate [OF assms(1,2), of "int k" after]
  by (simp add: nth_weekly_candidates [OF assms(3)] utc_day_of_week_candidate [OF assms(1,2)])

lemma some_day_matches:
  fixes d D :: int
  assumes "0 \<le> d" "d \<le> 6"
  shows "\<exists>k::int. 1 \<le> k \<and> k \<le> 7 \<and> (D + k + 4) mod 7 = d"
proof -
  define r where "r = (d - D - 4) mod 7"
  have r: "0 \<le> r" "r < 7" by (simp_all add: r_def)
  have "(D + r + 4) mod 7 = ((D + 4) + (d - D - 4) mod 7) mod 7"
    unfolding r_def by (simp add: algebra_simps)
  also have "\<dots> = ((D + 4) + (d - D - 4)) mod 7"
    by (rule mod_add_right_eq)
  also have "\<dots> = d mod 7" by simp
  also have "\<dots> = d" using assms by simp
  finally have e: "(D + r + 4) mod 7 = d" .
  show ?thesis
  proof (cases "r = 0")
    case True
    have "(D + 7 + 4) mod 7 = (D + 4 + 7) mod 7" by (simp add: ac_simps)
    also have "\<dots> = (D + 4) mod 7" by (rule mod_add_self2)
    also from e True have "\<dots> = d" by simp
    finally show ?thesis by (intro exI [of _ 7]) simp
  next
    case False
    with r e show ?thesis by (intro exI [of _ r]) simp
  qed
qed

lemma seventh_day:
  fixes d D :: int and i :: nat
  assumes "1 \<le> i" "i < 8" "(D + int i + 4) mod 7 = d" "(D + 4) mod 7 = d"
  shows "int i = 7"
proof -
  from assms(3,4) have "(D + int i + 4) mod 7 = (D + 4) mod 7" by simp
  then have "7 dvd (D + int i + 4) - (D + 4)"
    by (simp only: mod_eq_dvd_iff)
  then have "7 dvd int i" by simp
  then obtain c where c: "int i = 7 * c" by (elim dvdE)
  with assms(1,2) have "c = 1" by simp
  with c show ?thesis by simp
qed

lemma weekly_search:
  assumes d: "0 \<le> d" "d \<le> 6" and tod: "0 \<le> tod" "tod < ms_per_day"
  shows "\<exists>t. find (\<lambda>t. after < t \<and> utc_day_of_week t = d) (weekly_candidates tod after) = Some t \<and>
           after < t \<and> utc_day_of_week t = d \<and> utc_time_of_day t = tod \<and>
           (utc_day_of_week after = d \<and> utc_time_of_day after = tod \<longrightarrow>
              t = after + 7 * ms_per_day) \<and>
           (\<forall>u. after < u \<and> u < t \<longrightarrow> \<not> (utc_day_of_week u = d \<and> utc_time_of_day u = tod))"
proof -
  let ?P = "\<lambda>t. after < t \<and> utc_day_of_week t = d"
  let ?cs = "weekly_candidates tod after"
  define D where "D = after div ms_per_day"
  have m: "0 < ms_per_day" by (simp add: ms_per_day_def)
  note acc = candidate_accepted [OF tod, of _ after d, folded D_def]
  \<comment> \<open>one of the next seven days is the day of the week asked for\<close>
  from d have "\<exists>k::int. 1 \<le> k \<and> k \<le> 7 \<and> (D + k + 4) mod 7 = d"
    by (rule some_day_matches)
  then obtain ki :: int where ki: "1 \<le> ki" "ki \<le> 7" "(D + ki + 4) mod 7 = d"
    by blast
  define k where "k = nat ki"
  from ki have k: "k < 8" "1 \<le> k" "(D + int k + 4) mod 7 = d"
    by (simp_all add: k_def)
  then have "?P (?cs ! k)"
    using acc [of k] by simp
  moreover from k(1) have "?cs ! k \<in> set ?cs"
    by (simp add: length_weekly_candidates)
  ultimately have "find ?P ?cs \<noteq> None"
    unfolding find_None_iff by blast
  then obtain t where t: "find ?P ?cs = Some t"
    by blast
  then obtain i where i: "i < 8" "?P (?cs ! i)" "t = ?cs ! i" "\<forall>j<i. \<not> ?P (?cs ! j)"
    unfolding find_Some_iff length_weekly_candidates by blast
  from i(1,3) have t_eq: "t = (D + int i) * ms_per_day + tod"
    by (simp add: nth_weekly_candidates D_def)
  from i(2) have ci: "1 \<le> i \<or> after mod ms_per_day < tod" "(D + int i + 4) mod 7 = d"
    using acc [OF i(1)] by simp_all
  have p1: "after < t" "utc_day_of_week t = d"
    using i(2,3) by simp_all
  have p2: "utc_time_of_day t = tod"
    unfolding t_eq by (rule utc_time_of_day_candidate [OF tod])
  have p3: "t = after + 7 * ms_per_day"
    if "utc_day_of_week after = d \<and> utc_time_of_day after = tod"
  proof -
    from that have w: "(D + 4) mod 7 = d" "after mod ms_per_day = tod"
      by (simp_all add: utc_day_of_week_def utc_time_of_day_def D_def)
    from w(2) ci(1) have "1 \<le> i" by simp
    with i(1) ci(2) w(1) have "int i = 7" by (intro seventh_day)
    moreover have "after = D * ms_per_day + tod"
      unfolding D_def w(2) [symmetric] by simp
    ultimately show ?thesis
      unfolding t_eq by (simp add: algebra_simps)
  qed
  have p4: "\<not> (utc_day_of_week u = d \<and> utc_time_of_day u = tod)" if u: "after < u \<and> u < t" for u
  proof
    assume o: "utc_day_of_week u = d \<and> utc_time_of_day u = tod"
    define E where "E = u div ms_per_day"
    from o have u_eq: "u = E * ms_per_day + tod"
      unfolding E_def utc_time_of_day_def by (metis mult.commute mult_div_mod_eq)
    from u have "after div ms_per_day \<le> u div ms_per_day"
      using m by (intro zdiv_mono1) simp_all
    then have DE: "D \<le> E" by (simp add: D_def E_def)
    from u have "E * ms_per_day < (D + int i) * ms_per_day"
      unfolding t_eq u_eq by simp
    with m have Ei: "E < D + int i"
      by (simp add: mult_less_cancel_right)
    define j where "j = nat (E - D)"
    from DE Ei have j: "j < i" "int j = E - D"
      by (simp_all add: j_def)
    with i(1) have j8: "j < 8" by simp
    have "?cs ! j = u"
      unfolding u_eq using j(2) by (simp add: nth_weekly_candidates [OF j8] D_def)
    with u o have "?P (?cs ! j)" by simp
    with i(4) j(1) show False by blast
  qed
  from t p1 p2 p3 p4 show ?thesis by blast
qed

text \<open>
  Claim C9. For a schedule with a day of the week between 0 and 6 and a time of the form
  \<^verbatim>\<open>HH:MM\<close>, and every timestamp \<^verbatim>\<open>after\<close>, the weekly rule yields a fire time. It is
  strictly greater than \<^verbatim>\<open>after\<close>, falls on the schedule's day of the week at the schedule's
  time, and is the first such instant after \<^verbatim>\<open>after\<close>; when \<^verbatim>\<open>after\<close> itself falls on that day
  at that time, it is exactly one week later.
\<close>

theorem nextFireTime_weekly_next:
  assumes "dayOfWeek schedule = Some d" and "0 \<le> d" and "d \<le> 6"
    and "parse_time (time schedule) = Some tod"
  shows "\<exists>t. nextFireTime_weekly schedule after = Some t \<and>
           after < t \<and> utc_day_of_week t = d \<and> utc_time_of_day t = tod \<and>
           (utc_day_of_week after = d \<and> utc_time_of_day after = tod \<longrightarrow>
              t = after + 7 * ms_per_day) \<and>
           (\<forall>u. after < u \<and> u < t \<longrightarrow> \<not> (utc_day_of_week u = d \<and> utc_time_of_day u = tod))"
proof -
  from parse_time_range [OF assms(4)] have "0 \<le> tod" "tod < ms_per_day"
    by simp_all
  from weekly_search [OF assms(2,3) this, of after] show ?thesis
    by (simp add: nextFireTime_weekly_def assms(1,4))
qed

theorem nextFireTime_weekly_next_witness:
  "(\<exists>t. nextFireTime_weekly wednesdays 0 = Some t \<and> 0 < t \<and>
        utc_day_of_week t = 3 \<and> utc_time_of_day t = 32400000) \<and>
   nextFireTime_weekly wednesdays 550800000 = Some 1155600000"
proof -
  have d: "dayOfWeek wednesdays = Some 3"
    by (simp add: wednesdays_def)
  have p: "parse_time (time wednesdays) = Some 32400000"
    by (simp add: wednesdays_def row_def digit_def)
  have w: "utc_day_of_week 550800000 = 3" "utc_time_of_day 550800000 = 32400000"
    by (simp_all add: utc_day_of_week_def utc_time_of_day_def ms_per_day_def)
  from nextFireTime_weekly_next [OF d _ _ p, of 0]
    nextFireTime_weekly_next [OF d _ _ p, of 550800000] w
  show ?thesis
    by (auto simp add: ms_per_day_def)
qed

end
